theory Spec2Isabelle
  imports Main "HOL-Library.Word"
begin

section \<open>JavaScript strings\<close>

text \<open>
  A JavaScript string is a sequence of UTF-16 code units. Literals of the extension are
  ASCII and are written through \<open>js\<close>.
\<close>

type_synonym jschar = "16 word"
type_synonym jsstring = "jschar list"

definition js :: "string \<Rightarrow> jsstring" where
  "js s = map (\<lambda>c. of_char c) s"

definition LPAREN :: jschar where "LPAREN = 0x28"
definition RPAREN :: jschar where "RPAREN = 0x29"
definition LF :: jschar where "LF = 0x0A"
definition ESC :: jschar where "ESC = 0x1B"

text \<open>
  \<open>String.prototype.trim\<close> removes the code units of WhiteSpace (TAB, VT, FF, SP, NBSP,
  ZWNBSP and the space separators) and of LineTerminator (LF, CR, LS, PS) at both ends.
\<close>

definition isWhiteSpace :: "jschar \<Rightarrow> bool" where
  "isWhiteSpace c \<longleftrightarrow>
     c = 0x09 \<or> c = 0x0B \<or> c = 0x0C \<or> c = 0x20 \<or> c = 0xA0 \<or> c = 0xFEFF \<or>
     c = 0x1680 \<or> (0x2000 \<le> c \<and> c \<le> 0x200A) \<or> c = 0x202F \<or> c = 0x205F \<or>
     c = 0x3000 \<or> c = 0x0A \<or> c = 0x0D \<or> c = 0x2028 \<or> c = 0x2029"

definition trim :: "jsstring \<Rightarrow> jsstring" where
  "trim s = rev (dropWhile isWhiteSpace (rev (dropWhile isWhiteSpace s)))"

text \<open>\<open>text[i]\<close>: \<open>undefined\<close> (here \<open>None\<close>) when \<open>i\<close> is not an index of the string.\<close>

definition charAt :: "jsstring \<Rightarrow> nat \<Rightarrow> jschar option" where
  "charAt text i = (if i < length text then Some (text ! i) else None)"

text \<open>\<open>text.substring(a, b)\<close>: both ends are clamped to the length and put in order.\<close>

definition substring :: "jsstring \<Rightarrow> nat \<Rightarrow> nat \<Rightarrow> jsstring" where
  "substring text a b =
     (let a' = min a (length text); b' = min b (length text);
          lo = min a' b'; hi = max a' b'
      in take (hi - lo) (drop lo text))"

section \<open>The editor's documents\<close>

text \<open>
  \<open>TextDocument\<close>, \<open>Position\<close> and \<open>Selection\<close> belong to the host editor; the
  extension only calls them. A document is the record of the four calls that are made.
\<close>

record Position =
  line :: nat
  character :: nat

record Selection =
  selStart :: Position
  selEnd :: Position
  active :: Position

definition isEmpty :: "Selection \<Rightarrow> bool" where
  "isEmpty sel \<longleftrightarrow> selStart sel = selEnd sel"

record TextDocument =
  getText :: jsstring
  offsetAt :: "Position \<Rightarrow> nat"
  lineAt :: "nat \<Rightarrow> jsstring"
  getTextIn :: "Selection \<Rightarrow> jsstring"

record TextEditor =
  document :: TextDocument
  selection :: Selection

section \<open>findCodeBlock\<close>

text \<open>
  The backward loop \<open>for (i = offset; i >= 0; i--)\<close>, from index \<open>i\<close> with the current
  \<open>depth\<close>. The result is \<open>startOffset\<close>, \<open>None\<close> standing for \<open>-1\<close>.
\<close>

fun searchBackward :: "jsstring \<Rightarrow> nat \<Rightarrow> int \<Rightarrow> nat option" where
  "searchBackward text 0 depth =
     (if charAt text 0 = Some RPAREN then None
      else if charAt text 0 = Some LPAREN then (if depth = 0 then Some 0 else None)
      else None)"
| "searchBackward text (Suc i) depth =
     (if charAt text (Suc i) = Some RPAREN then searchBackward text i (depth + 1)
      else if charAt text (Suc i) = Some LPAREN then
        (if depth = 0 then Some (Suc i) else searchBackward text i (depth - 1))
      else searchBackward text i depth)"

text \<open>
  The forward loop \<open>for (i = startOffset; i < text.length; i++)\<close>, from index \<open>i\<close> with the
  current \<open>depth\<close>. The result is \<open>endOffset\<close>, \<open>None\<close> standing for \<open>-1\<close>.
\<close>

function searchForward :: "jsstring \<Rightarrow> nat \<Rightarrow> int \<Rightarrow> nat option" where
  "searchForward text i depth =
     (if i < length text then
        (if text ! i = LPAREN then searchForward text (i + 1) (depth + 1)
         else if text ! i = RPAREN then
           (if depth - 1 = 0 then Some (i + 1) else searchForward text (i + 1) (depth - 1))
         else searchForward text (i + 1) depth)
      else None)"
  by pat_completeness auto
termination
  by (relation "measure (\<lambda>(text, i, depth). length text - i)") auto

declare searchForward.simps [simp del]

definition findCodeBlock :: "TextDocument \<Rightarrow> Position \<Rightarrow> jsstring option" where
  "findCodeBlock doc position =
     (let text = getText doc;
          offset = offsetAt doc position;
          startOffset = searchBackward text offset 0;
          endOffset = (case startOffset of None \<Rightarrow> None | Some s \<Rightarrow> searchForward text s 0)
      in case (startOffset, endOffset) of
           (Some s, Some e) \<Rightarrow>
             if e > s then Some (substring text s e)
             else Some (trim (lineAt doc (line position)))
         | _ \<Rightarrow> Some (trim (lineAt doc (line position))))"

text \<open>
  The value of the local variable \<open>code\<close> of \<open>executeBlockCommand\<close> when it calls
  \<open>executeCode\<close>. A block that is \<open>null\<close> or the empty string is falsy.
\<close>

definition blockOrLine :: "TextEditor \<Rightarrow> jsstring" where
  "blockOrLine editor =
     (if \<not> isEmpty (selection editor) then getTextIn (document editor) (selection editor)
      else (case findCodeBlock (document editor) (active (selection editor)) of
              Some blockCode \<Rightarrow>
                if blockCode \<noteq> [] then blockCode
                else lineAt (document editor) (line (active (selection editor)))
            | None \<Rightarrow> lineAt (document editor) (line (active (selection editor)))))"

section \<open>The interpreter process and the extension's state\<close>

text \<open>
  A \<open>ChildProcess\<close> object as the extension sees it: the \<open>path\<close> and \<open>fallbackToExe\<close>
  that the closures of its event handlers captured, its \<open>killed\<close> flag, and its \<open>stdin\<close>
  stream (\<open>None\<close> for \<open>null\<close>, otherwise the chunks written so far).
\<close>

record ChildProcess =
  spawnfile :: jsstring
  fallbackToExe :: bool
  killed :: bool
  stdin :: "jsstring list option"

text \<open>
  The module-level variables and what the extension does to the outside: every process
  object created (a store, indexed in creation order), the handle \<open>sclangProcess\<close> (an
  index into the store, \<open>None\<close> for \<open>null\<close>), the text of the two output channels, the
  calls of \<open>postWindowOutput.show\<close>, the error notifications shown, the code of the
  pending \<open>setTimeout\<close> callbacks in the order they were scheduled, and the calls of
  \<open>spawn\<close> with their argument lists.
\<close>

record State =
  procs :: "ChildProcess list"
  sclangProcess :: "nat option"
  sclangOutput :: jsstring
  postWindowOutput :: jsstring
  postWindowShows :: nat
  errorMessages :: "jsstring list"
  timers :: "jsstring list"
  spawnCalls :: "(jsstring \<times> jsstring list) list"

datatype Platform = Linux | Win32 | Darwin | OtherPlatform

text \<open>
  What the extension reads from its surroundings: \<open>process.platform\<close>, the setting
  \<open>supercollider.sclangPath\<close> (\<open>None\<close> when it is not set), and for each path whether
  \<open>spawn\<close> throws synchronously (\<open>Some\<close> of the error as it prints in a template string).
\<close>

record Env =
  platform :: Platform
  sclangPathSetting :: "jsstring option"
  spawnThrows :: "jsstring \<Rightarrow> jsstring option"

text \<open>The error object of a process's \<open>error\<close> event.\<close>

datatype Errno = ENOENT | EACCES | EAGAIN | OtherErrno

record SpawnError =
  errno :: Errno
  message :: jsstring

definition appendLine :: "jsstring \<Rightarrow> jsstring \<Rightarrow> jsstring" where
  "appendLine channel v = channel @ v @ [LF]"

definition logLine :: "jsstring \<Rightarrow> State \<Rightarrow> State" where
  "logLine v st = st\<lparr>sclangOutput := appendLine (sclangOutput st) v\<rparr>"

definition showErrorMessage :: "jsstring \<Rightarrow> State \<Rightarrow> State" where
  "showErrorMessage v st = st\<lparr>errorMessages := errorMessages st @ [v]\<rparr>"

definition theProcess :: "State \<Rightarrow> ChildProcess option" where
  "theProcess st =
     (case sclangProcess st of
        None \<Rightarrow> None
      | Some pid \<Rightarrow> if pid < length (procs st) then Some (procs st ! pid) else None)"

text \<open>The test \<open>sclangProcess && !sclangProcess.killed\<close>.\<close>

definition live :: "State \<Rightarrow> bool" where
  "live st = (case theProcess st of None \<Rightarrow> False | Some p \<Rightarrow> \<not> killed p)"

definition getSclangPath :: "Env \<Rightarrow> jsstring" where
  "getSclangPath env =
     (case sclangPathSetting env of
        None \<Rightarrow> js ''sclang''
      | Some p \<Rightarrow> if p = [] then js ''sclang'' else p)"

text \<open>
  The local function \<open>spawnProcess\<close> of \<open>startSclang\<close>: \<open>Inl\<close> when \<open>spawn\<close> throws,
  otherwise \<open>Inr\<close> of the new process object, whose handlers are \<open>onError\<close>, \<open>onData\<close>
  and \<open>onExit\<close> below.
\<close>

definition spawnProcess :: "Env \<Rightarrow> bool \<Rightarrow> jsstring \<Rightarrow> State \<Rightarrow> (jsstring + nat) \<times> State" where
  "spawnProcess env fallback path st =
     (let st1 = st\<lparr>spawnCalls := spawnCalls st @ [(path, [js ''-i'', js ''vscode''])]\<rparr>
      in case spawnThrows env path of
           Some e \<Rightarrow> (Inl e, st1)
         | None \<Rightarrow>
             (Inr (length (procs st1)),
              st1\<lparr>procs := procs st1 @
                [\<lparr>spawnfile = path, fallbackToExe = fallback, killed = False, stdin = Some []\<rparr>]\<rparr>))"

text \<open>
  The handler of the \<open>error\<close> event of process \<open>pid\<close>. The first component is the
  exception that leaves the handler, if any (\<open>spawn\<close> throwing in the fallback).
\<close>

definition onError :: "Env \<Rightarrow> nat \<Rightarrow> SpawnError \<Rightarrow> State \<Rightarrow> jsstring option \<times> State" where
  "onError env pid err st =
     (if pid < length (procs st) then
        (let path = spawnfile (procs st ! pid);
             fallback = fallbackToExe (procs st ! pid);
             st1 = logLine (js ''[SuperCollider] Error spawning '' @ path @ js '': '' @ message err) st
         in if path = js ''sclang'' \<and> fallback \<and> (platform env = Linux \<or> platform env = Win32) then
              (case spawnProcess env fallback (js ''sclang.exe'')
                      (logLine (js ''[SuperCollider] Attempting fallback to sclang.exe...'') st1) of
                 (Inl e, st2) \<Rightarrow> (Some e, st2)
               | (Inr p, st2) \<Rightarrow> (None, st2\<lparr>sclangProcess := Some p\<rparr>))
            else
              (None,
               (showErrorMessage
                  (js ''Failed to start sclang ('' @ path @ js ''): '' @ message err @
                   js ''. Check supercollider.sclangPath setting.'') st1)
               \<lparr>sclangProcess := None\<rparr>))
      else (None, st))"

text \<open>The handlers of the \<open>data\<close> events of \<open>stdout\<close> and \<open>stderr\<close>.\<close>

definition onData :: "jsstring \<Rightarrow> State \<Rightarrow> State" where
  "onData data st = st\<lparr>postWindowOutput := postWindowOutput st @ data\<rparr>"

text \<open>
  The handler of the \<open>exit\<close> event of process \<open>pid\<close>; \<open>code\<close> is the exit code as the
  template prints it (\<open>null\<close> for a process ended by a signal). The handler does not
  compare its process with the handle.
\<close>

definition onExit :: "nat \<Rightarrow> jsstring \<Rightarrow> State \<Rightarrow> State" where
  "onExit pid code st =
     (if pid < length (procs st) then
        (logLine (js ''[SuperCollider] sclang exited with code '' @ code) st)\<lparr>sclangProcess := None\<rparr>
      else st)"

definition startSclang :: "Env \<Rightarrow> bool \<Rightarrow> State \<Rightarrow> bool \<times> State" where
  "startSclang env fallback st =
     (if live st then (True, logLine (js ''[SuperCollider] sclang already running'') st)
      else
        (let sclangPath = getSclangPath env;
             st1 = logLine (js ''[SuperCollider] Starting sclang: '' @ sclangPath) st
         in case spawnProcess env fallback sclangPath st1 of
              (Inr p, st2) \<Rightarrow>
                (True,
                 (logLine (js ''[SuperCollider] sclang process spawned, waiting for output...'')
                    (st2\<lparr>sclangProcess := Some p\<rparr>))
                 \<lparr>postWindowShows := Suc (postWindowShows st2)\<rparr>)
            | (Inl e, st2) \<Rightarrow>
                (False,
                 showErrorMessage
                   (js ''Failed to start sclang. Make sure SuperCollider is installed and sclangPath is configured.'')
                   (logLine (js ''[SuperCollider] Failed to start sclang: '' @ e) st2))))"

text \<open>
  \<open>sclangProcess.kill()\<close> on the object the handle refers to, with the signal taken as
  delivered, which sets the flag. \<open>stopSclang\<close> is the only caller and clears the handle
  right after, so that no later test of the extension reads the flag of this object.
\<close>

definition kill :: "nat \<Rightarrow> State \<Rightarrow> State" where
  "kill pid st = st\<lparr>procs := (procs st)[pid := (procs st ! pid)\<lparr>killed := True\<rparr>]\<rparr>"

definition stopSclang :: "State \<Rightarrow> State" where
  "stopSclang st =
     (if live st then
        (case sclangProcess st of
           None \<Rightarrow> st
         | Some pid \<Rightarrow>
             logLine (js ''[SuperCollider] sclang stopped'')
               ((kill pid (logLine (js ''[SuperCollider] Stopping sclang...'') st))
                \<lparr>sclangProcess := None\<rparr>))
      else st)"

text \<open>\<open>sclangProcess.stdin.write(data)\<close>.\<close>

definition stdinWrite :: "nat \<Rightarrow> jsstring \<Rightarrow> State \<Rightarrow> State" where
  "stdinWrite pid data st =
     st\<lparr>procs := (procs st)[pid :=
            (procs st ! pid)\<lparr>stdin := map_option (\<lambda>ws. ws @ [data]) (stdin (procs st ! pid))\<rparr>]\<rparr>"

text \<open>The line echoed to the post window: the first line of the code, and an ellipsis.\<close>

definition echoLine :: "jsstring \<Rightarrow> jsstring" where
  "echoLine cleanCode =
     [LF] @ js ''-> '' @ takeWhile (\<lambda>c. c \<noteq> LF) cleanCode @
     (if LF \<in> set cleanCode then js ''...'' else [])"

definition sendCode :: "jsstring \<Rightarrow> State \<Rightarrow> State" where
  "sendCode code st =
     (case theProcess st of
        None \<Rightarrow> showErrorMessage (js ''sclang is not running'') st
      | Some p \<Rightarrow>
          (case (stdin p, sclangProcess st) of
             (Some ws, Some pid) \<Rightarrow>
               (let cleanCode = trim code
                in if cleanCode = [] then st
                   else stdinWrite pid (cleanCode @ [ESC])
                          (st\<lparr>postWindowOutput :=
                                appendLine (postWindowOutput st) (echoLine cleanCode)\<rparr>))
           | _ \<Rightarrow> showErrorMessage (js ''sclang is not running'') st))"

definition executeCode :: "Env \<Rightarrow> jsstring \<Rightarrow> State \<Rightarrow> State" where
  "executeCode env code st =
     (if \<not> live st then
        (case startSclang env True st of
           (False, st1) \<Rightarrow> st1
         | (True, st1) \<Rightarrow> st1\<lparr>timers := timers st1 @ [code]\<rparr>)
      else sendCode code st)"


definition executeBlockCommand :: "Env \<Rightarrow> TextEditor \<Rightarrow> State \<Rightarrow> State" where
  "executeBlockCommand env editor st = executeCode env (blockOrLine editor) st"

definition bootServer :: "Env \<Rightarrow> State \<Rightarrow> State" where
  "bootServer env st = executeCode env (js ''s.boot;'') st"

definition rebootServer :: "Env \<Rightarrow> State \<Rightarrow> State" where
  "rebootServer env st = executeCode env (js ''s.reboot;'') st"

definition killServer :: "Env \<Rightarrow> State \<Rightarrow> State" where
  "killServer env st = executeCode env (js ''s.quit;'') st"

definition stopAllSounds :: "Env \<Rightarrow> State \<Rightarrow> State" where
  "stopAllSounds env st = executeCode env (js ''CmdPeriod.run;'') st"

text \<open>The state when \<open>activate\<close> has created the two empty channels.\<close>

definition initialState :: State where
  "initialState =
     \<lparr>procs = [], sclangProcess = None, sclangOutput = [], postWindowOutput = [],
      postWindowShows = 0, errorMessages = [], timers = [], spawnCalls = []\<rparr>"

section \<open>Parentheses: counting and balance\<close>

text \<open>The number of \<open>(\<close> minus the number of \<open>)\<close> of a string.\<close>

definition bal :: "jsstring \<Rightarrow> int" where
  "bal xs = int (count_list xs LPAREN) - int (count_list xs RPAREN)"

text \<open>
  A string is balanced when, read from the left, no \<open>)\<close> comes without an earlier
  \<open>(\<close> still open, and none is open at the end. \<open>balancedFrom d\<close> is the same with
  \<open>d\<close> parentheses open at the start.
\<close>

fun balancedFrom :: "nat \<Rightarrow> jsstring \<Rightarrow> bool" where
  "balancedFrom d [] = (d = 0)"
| "balancedFrom d (c # cs) =
     (if c = LPAREN then balancedFrom (Suc d) cs
      else if c = RPAREN then (case d of 0 \<Rightarrow> False | Suc d' \<Rightarrow> balancedFrom d' cs)
      else balancedFrom d cs)"

definition balanced :: "jsstring \<Rightarrow> bool" where
  "balanced xs = balancedFrom 0 xs"

text \<open>
  The pair of parentheses at the indices \<open>s\<close> and \<open>e - 1\<close> encloses the cursor at
  \<open>offset\<close>: the cursor is after the \<open>(\<close> and before the \<open>)\<close>, and the \<open>)\<close> closes
  the \<open>(\<close>.
\<close>

definition enclosingPair :: "jsstring \<Rightarrow> nat \<Rightarrow> nat \<Rightarrow> nat \<Rightarrow> bool" where
  "enclosingPair text offset s e \<longleftrightarrow>
     s < offset \<and> offset < e \<and> e \<le> length text \<and> text ! s = LPAREN \<and> text ! (e - 1) = RPAREN \<and>
     balanced (substring text (s + 1) (e - 1))"

text \<open>
  A document of one line without terminator: the offset of a position is its character,
  and the text of the line is the text of the document. \<open>cursorAt n\<close> is the empty
  selection at character \<open>n\<close> of that line.
\<close>

definition singleLineDocument :: "jsstring \<Rightarrow> TextDocument" where
  "singleLineDocument t =
     \<lparr>getText = t, offsetAt = character, lineAt = (\<lambda>n. t),
      getTextIn = (\<lambda>sel. substring t (character (selStart sel)) (character (selEnd sel)))\<rparr>"

definition cursorAt :: "nat \<Rightarrow> Selection" where
  "cursorAt n =
     \<lparr>selStart = \<lparr>line = 0, character = n\<rparr>, selEnd = \<lparr>line = 0, character = n\<rparr>,
      active = \<lparr>line = 0, character = n\<rparr>\<rparr>"

text \<open>
  The two loops of \<open>findCodeBlock\<close> leave \<open>startOffset\<close> or \<open>endOffset\<close> at \<open>-1\<close>.
\<close>

definition noBlockFound :: "jsstring \<Rightarrow> nat \<Rightarrow> bool" where
  "noBlockFound text offset \<longleftrightarrow>
     (case searchBackward text offset 0 of None \<Rightarrow> True | Some s \<Rightarrow> searchForward text s 0 = None)"

section \<open>Example surroundings and states\<close>

text \<open>
  Two hosts with the setting left unset and a \<open>spawn\<close> that never throws, the state after
  \<open>startSclang\<close> from the initial state on the first, and two \<open>error\<close> events.
\<close>

definition linuxDefaults :: Env where
  "linuxDefaults = \<lparr>platform = Linux, sclangPathSetting = None, spawnThrows = (\<lambda>p. None)\<rparr>"

definition darwinDefaults :: Env where
  "darwinDefaults = \<lparr>platform = Darwin, sclangPathSetting = None, spawnThrows = (\<lambda>p. None)\<rparr>"

definition runningState :: State where
  "runningState = snd (startSclang linuxDefaults True initialState)"

text \<open>
  Start, stop and start again; then the \<open>exit\<close> event of the first process, the one that
  was stopped, arrives; then one more start.
\<close>

definition restartedState :: State where
  "restartedState = snd (startSclang linuxDefaults True (stopSclang runningState))"

definition lateExitState :: State where
  "lateExitState = onExit 0 (js ''null'') restartedState"

definition secondInterpreterState :: State where
  "secondInterpreterState = snd (startSclang linuxDefaults True lateExitState)"

definition notFound :: SpawnError where
  "notFound = \<lparr>errno = ENOENT, message = js ''spawn sclang ENOENT''\<rparr>"

definition permissionDenied :: SpawnError where
  "permissionDenied = \<lparr>errno = EACCES, message = js ''spawn sclang EACCES''\<rparr>"

text \<open>The condition under which the \<open>error\<close> handler of process \<open>p\<close> re-spawns.\<close>

definition fallbackApplies :: "Env \<Rightarrow> ChildProcess \<Rightarrow> bool" where
  "fallbackApplies env p \<longleftrightarrow>
     spawnfile p = js ''sclang'' \<and> fallbackToExe p \<and> (platform env = Linux \<or> platform env = Win32)"

section \<open>Properties of the two scans\<close>

lemma paren_neq: "LPAREN \<noteq> RPAREN"
  by (simp add: LPAREN_def RPAREN_def)

lemma bal_Nil [simp]: "bal [] = 0"
  by (simp add: bal_def)
lemma bal_Cons: "bal (c # cs) = (if c = LPAREN then 1 else if c = RPAREN then - 1 else 0) + bal cs"
  using paren_neq by (auto simp: bal_def)
lemma bal_append: "bal (xs @ ys) = bal xs + bal ys"
  by (simp add: bal_def)

lemma slice_step:
  assumes "i < e" "e \<le> length text"
  shows "take (e - i) (drop i text) = text ! i # take (e - Suc i) (drop (Suc i) text)"
proof -
  from assms have "i < length text" by simp
  then have "drop i text = text ! i # drop (Suc i) text" by (simp add: Cons_nth_drop_Suc)
  moreover from assms have "e - i = Suc (e - Suc i)" by simp
  ultimately show ?thesis by simp
qed

lemma searchForward_sound:
  "searchForward t i d = Some e \<Longrightarrow>
     i < e \<and> e \<le> length t \<and> t ! (e - 1) = RPAREN \<and> d + bal (take (e - i) (drop i t)) = 0"
proof (induction t i d rule: searchForward.induct)
  case (1 t i depth)
  from "1.prems" have lt: "i < length t"
    by (subst (asm) searchForward.simps) (simp split: if_splits)
  consider (lp) "t ! i = LPAREN"
    | (close_end) "t ! i \<noteq> LPAREN" "t ! i = RPAREN" "depth - 1 = 0"
    | (close_go) "t ! i \<noteq> LPAREN" "t ! i = RPAREN" "depth - 1 \<noteq> 0"
    | (other) "t ! i \<noteq> LPAREN" "t ! i \<noteq> RPAREN"
    by blast
  then show ?case
  proof cases
    case lp
    with "1.prems" lt have "searchForward t (i + 1) (depth + 1) = Some e"
      by (subst (asm) searchForward.simps) simp
    from "1.IH"(1)[OF lt lp this]
    have ih: "i + 1 < e" "e \<le> length t" "t ! (e - 1) = RPAREN"
      "depth + 1 + bal (take (e - (i + 1)) (drop (i + 1) t)) = 0" by simp_all
    from ih(1,2) have "take (e - i) (drop i t) = t ! i # take (e - Suc i) (drop (Suc i) t)"
      by (intro slice_step) simp_all
    with ih lp show ?thesis by (simp add: bal_Cons)
  next
    case close_end
    with "1.prems" lt have e: "e = i + 1"
      by (subst (asm) searchForward.simps) simp
    with lt have "take (e - i) (drop i t) = [t ! i]"
      by (simp add: take_Suc_conv_app_nth)
    with e lt close_end show ?thesis by (simp add: bal_Cons)
  next
    case close_go
    with "1.prems" lt have "searchForward t (i + 1) (depth - 1) = Some e"
      by (subst (asm) searchForward.simps) simp
    from "1.IH"(2)[OF lt close_go this]
    have ih: "i + 1 < e" "e \<le> length t" "t ! (e - 1) = RPAREN"
      "depth - 1 + bal (take (e - (i + 1)) (drop (i + 1) t)) = 0" by simp_all
    from ih(1,2) have "take (e - i) (drop i t) = t ! i # take (e - Suc i) (drop (Suc i) t)"
      by (intro slice_step) simp_all
    with ih close_go show ?thesis by (simp add: bal_Cons)
  next
    case other
    with "1.prems" lt have "searchForward t (i + 1) depth = Some e"
      by (subst (asm) searchForward.simps) simp
    from "1.IH"(3)[OF lt other this]
    have ih: "i + 1 < e" "e \<le> length t" "t ! (e - 1) = RPAREN"
      "depth + bal (take (e - (i + 1)) (drop (i + 1) t)) = 0" by simp_all
    from ih(1,2) have "take (e - i) (drop i t) = t ! i # take (e - Suc i) (drop (Suc i) t)"
      by (intro slice_step) simp_all
    with ih other show ?thesis by (simp add: bal_Cons)
  qed
qed

lemma searchBackward_sound:
  "searchBackward t i d = Some s \<Longrightarrow> s \<le> i \<and> s < length t \<and> t ! s = LPAREN"
proof (induction t i d rule: searchBackward.induct)
  case (1 t depth)
  then show ?case by (simp add: charAt_def split: if_splits)
next
  case (2 t i depth)
  then show ?case by (fastforce simp: charAt_def split: if_splits)
qed

lemma balancedFrom_bal: "balancedFrom d xs \<Longrightarrow> int d + bal xs = 0"
proof (induction xs arbitrary: d)
  case Nil
  then show ?case by simp
next
  case (Cons c cs)
  with Cons.IH[of "Suc d"] Cons.IH[of "d - 1"] Cons.IH[of d]
  show ?case by (auto simp: bal_Cons split: if_splits nat.splits)
qed

lemma balancedFrom_take: "balancedFrom d xs \<Longrightarrow> 0 \<le> int d + bal (take n xs)"
proof (induction xs arbitrary: d n)
  case Nil
  then show ?case by simp
next
  case (Cons c cs)
  show ?case
  proof (cases n)
    case 0
    then show ?thesis by simp
  next
    case (Suc m)
    with Cons.prems Cons.IH[of "Suc d" m] Cons.IH[of "d - 1" m] Cons.IH[of d m]
    show ?thesis by (auto simp: bal_Cons split: if_splits nat.splits)
  qed
qed

lemma balanced_drop: "balanced xs \<Longrightarrow> bal (drop n xs) \<le> 0"
proof -
  assume b: "balanced xs"
  have "bal xs = bal (take n xs) + bal (drop n xs)"
    by (metis append_take_drop_id bal_append)
  moreover from b have "bal xs = 0" using balancedFrom_bal[of 0 xs] by (simp add: balanced_def)
  moreover from b have "0 \<le> bal (take n xs)" using balancedFrom_take[of 0 xs n] by (simp add: balanced_def)
  ultimately show ?thesis by simp
qed

lemma searchForward_complete:
  "balancedFrom k m \<Longrightarrow>
     searchForward (pre @ m @ RPAREN # post) (length pre) (int k + 1) = Some (length pre + length m + 1)"
proof (induction m arbitrary: pre k)
  case Nil
  then show ?case
    using paren_neq by (subst searchForward.simps) simp
next
  case (Cons c cs)
  have idx: "(pre @ (c # cs) @ RPAREN # post) ! length pre = c" by simp
  have re: "pre @ (c # cs) @ RPAREN # post = (pre @ [c]) @ cs @ RPAREN # post" by simp
  consider (lp) "c = LPAREN" | (rp) "c \<noteq> LPAREN" "c = RPAREN" | (other) "c \<noteq> LPAREN" "c \<noteq> RPAREN"
    by blast
  then show ?case
  proof cases
    case lp
    with Cons.prems have "balancedFrom (Suc k) cs" by simp
    from Cons.IH[OF this, of "pre @ [c]"] lp show ?thesis
      by (subst searchForward.simps) (simp add: idx)
  next
    case rp
    with Cons.prems obtain k' where k: "k = Suc k'" "balancedFrom k' cs"
      by (auto split: nat.splits)
    from Cons.IH[OF k(2), of "pre @ [c]"] rp k(1) show ?thesis
      by (subst searchForward.simps) (simp add: idx add.commute)
  next
    case other
    with Cons.prems have "balancedFrom k cs" by simp
    from Cons.IH[OF this, of "pre @ [c]"] other show ?thesis
      by (subst searchForward.simps) (simp add: idx)
  qed
qed

lemma searchBackward_complete:
  "(\<And>n. bal (drop n a) \<le> d) \<Longrightarrow> bal a = d \<Longrightarrow>
     searchBackward (pre @ LPAREN # a @ rest) (length pre + length a) d = Some (length pre)"
proof (induction a arbitrary: d rest rule: rev_induct)
  case Nil
  then show ?case
    using paren_neq by (cases "length pre") (auto simp: charAt_def nth_append)
next
  case (snoc c cs)
  have idx: "charAt (pre @ LPAREN # (cs @ [c]) @ rest) (Suc (length pre + length cs)) = Some c"
    by (simp add: charAt_def nth_append)
  have len: "length pre + length (cs @ [c]) = Suc (length pre + length cs)" by simp
  have suf: "bal (drop n cs) + bal [c] \<le> d" for n
  proof (cases "n \<le> length cs")
    case True
    then have "drop n (cs @ [c]) = drop n cs @ [c]" by simp
    with snoc.prems(1)[of n] show ?thesis by (simp add: bal_append)
  next
    case False
    with snoc.prems(1)[of "length cs"] show ?thesis by (simp add: bal_append)
  qed
  from snoc.prems(2) have tot: "bal cs + bal [c] = d" by (simp add: bal_append)
  have re: "pre @ LPAREN # (cs @ [c]) @ rest = pre @ LPAREN # cs @ (c # rest)" by simp
  consider (rp) "c = RPAREN" | (lp) "c \<noteq> RPAREN" "c = LPAREN" | (other) "c \<noteq> RPAREN" "c \<noteq> LPAREN"
    by blast
  then show ?case
  proof cases
    case rp
    have "searchBackward (pre @ LPAREN # cs @ (c # rest)) (length pre + length cs) (d + 1) = Some (length pre)"
    proof (rule snoc.IH)
      fix n show "bal (drop n cs) \<le> d + 1" using suf[of n] rp paren_neq by (simp add: bal_Cons)
    next
      show "bal cs = d + 1" using tot rp paren_neq by (simp add: bal_Cons)
    qed
    with rp idx show ?thesis unfolding len re[symmetric] by (simp add: re)
  next
    case lp
    from suf[of "length cs"] lp have "d \<noteq> 0" by (simp add: bal_Cons)
    have "searchBackward (pre @ LPAREN # cs @ (c # rest)) (length pre + length cs) (d - 1) = Some (length pre)"
    proof (rule snoc.IH)
      fix n show "bal (drop n cs) \<le> d - 1" using suf[of n] lp paren_neq by (simp add: bal_Cons)
    next
      show "bal cs = d - 1" using tot lp paren_neq by (simp add: bal_Cons)
    qed
    with lp idx \<open>d \<noteq> 0\<close> paren_neq show ?thesis unfolding len by (simp add: re)
  next
    case other
    have "searchBackward (pre @ LPAREN # cs @ (c # rest)) (length pre + length cs) d = Some (length pre)"
    proof (rule snoc.IH)
      fix n show "bal (drop n cs) \<le> d" using suf[of n] other paren_neq by (simp add: bal_Cons)
    next
      show "bal cs = d" using tot other paren_neq by (simp add: bal_Cons)
    qed
    with other idx show ?thesis unfolding len by (simp add: re)
  qed
qed

lemma substring_slice: "s \<le> e \<Longrightarrow> e \<le> length t \<Longrightarrow> substring t s e = take (e - s) (drop s t)"
  by (simp add: substring_def Let_def min_def max_def)

section \<open>The block that is executed\<close>

text \<open>
  C10. Whenever the backward scan finds an unmatched \<open>(\<close> and the forward scan finds
  the close, \<open>findCodeBlock\<close> returns the text between the two offsets; that text begins
  with \<open>(\<close>, ends with \<open>)\<close>, and has as many \<open>(\<close> as \<open>)\<close>.
\<close>

theorem findCodeBlock_block_shape:
  assumes "searchBackward (getText doc) (offsetAt doc pos) 0 = Some s"
    and "searchForward (getText doc) s 0 = Some e"
  shows "findCodeBlock doc pos = Some (substring (getText doc) s e) \<and>
         substring (getText doc) s e \<noteq> [] \<and>
         hd (substring (getText doc) s e) = LPAREN \<and>
         last (substring (getText doc) s e) = RPAREN \<and>
         count_list (substring (getText doc) s e) LPAREN = count_list (substring (getText doc) s e) RPAREN"
proof -
  let ?t = "getText doc"
  let ?frag = "take (e - s) (drop s ?t)"
  from searchForward_sound[OF assms(2)]
  have fw: "s < e" "e \<le> length ?t" "?t ! (e - 1) = RPAREN" "bal ?frag = 0" by simp_all
  from searchBackward_sound[OF assms(1)] have bw: "?t ! s = LPAREN" by simp
  from fw have sub: "substring ?t s e = ?frag" by (simp add: substring_slice)
  from fw have len: "length ?frag = e - s" by simp
  with fw have ne: "?frag \<noteq> []" by auto
  from fw have "hd ?frag = ?t ! s" by (simp add: hd_conv_nth hd_drop_conv_nth)
  with bw have h: "hd ?frag = LPAREN" by simp
  from ne len have "last ?frag = ?frag ! (e - s - 1)" by (simp add: last_conv_nth)
  also from fw have "\<dots> = ?t ! (e - 1)" by simp
  finally have l: "last ?frag = RPAREN" using fw by simp
  from fw(4) have c: "count_list ?frag LPAREN = count_list ?frag RPAREN" by (simp add: bal_def)
  from assms fw have "findCodeBlock doc pos = Some (substring ?t s e)"
    by (simp add: findCodeBlock_def Let_def)
  with sub ne h l c show ?thesis by simp
qed

theorem findCodeBlock_block_shape_witness:
  "searchBackward (js ''(a (b) c)'') 4 0 = Some 3 \<and>
   searchForward (js ''(a (b) c)'') 3 0 = Some 6 \<and>
   findCodeBlock (singleLineDocument (js ''(a (b) c)'')) \<lparr>line = 0, character = 4\<rparr> = Some (js ''(b)'') \<and>
   hd (js ''(b)'') = LPAREN \<and> last (js ''(b)'') = RPAREN \<and>
   count_list (js ''(b)'') LPAREN = count_list (js ''(b)'') RPAREN"
proof -
  let ?doc = "singleLineDocument (js ''(a (b) c)'')"
  let ?pos = "\<lparr>line = 0, character = 4\<rparr>"
  have b: "searchBackward (js ''(a (b) c)'') 4 0 = Some 3" by code_simp
  have f: "searchForward (js ''(a (b) c)'') 3 0 = Some 6" by code_simp
  have s: "substring (js ''(a (b) c)'') 3 6 = js ''(b)''" by code_simp
  have g: "getText ?doc = js ''(a (b) c)''" "offsetAt ?doc ?pos = 4"
    by (simp_all add: singleLineDocument_def)
  from findCodeBlock_block_shape[of ?doc ?pos 3 6] b f s g show ?thesis by simp
qed

text \<open>
  The nearest pair. When the text from the \<open>(\<close> at \<open>length pre\<close> up to the character at
  the cursor offset is balanced after that \<open>(\<close>, the backward scan stops at that \<open>(\<close>;
  when the text up to the \<open>)\<close> is balanced, the forward scan stops behind that \<open>)\<close>.
\<close>

lemma findCodeBlock_nearest_unmatched:
  assumes "isEmpty (selection editor)"
    and "getText (document editor) = pre @ LPAREN # a @ b @ RPAREN # post"
    and "offsetAt (document editor) (active (selection editor)) = length pre + length a"
    and "balanced a"
    and "balanced (a @ b)"
  shows "findCodeBlock (document editor) (active (selection editor)) = Some (LPAREN # a @ b @ [RPAREN]) \<and>
         blockOrLine editor = LPAREN # a @ b @ [RPAREN]"
proof -
  let ?t = "pre @ LPAREN # a @ b @ RPAREN # post"
  have "bal (drop n a) \<le> 0" for n using assms(4) by (rule balanced_drop)
  moreover have "bal a = 0" using assms(4) balancedFrom_bal[of 0 a] by (simp add: balanced_def)
  ultimately have "searchBackward (pre @ LPAREN # a @ (b @ RPAREN # post)) (length pre + length a) 0
      = Some (length pre)"
    by (intro searchBackward_complete) simp_all
  then have bw: "searchBackward ?t (length pre + length a) 0 = Some (length pre)" by simp
  from assms(5) have "balancedFrom 0 (a @ b)" by (simp add: balanced_def)
  from searchForward_complete[OF this, of "pre @ [LPAREN]" post]
  have "searchForward ?t (Suc (length pre)) 1 = Some (length pre + length a + length b + 2)"
    by simp
  then have fw: "searchForward ?t (length pre) 0 = Some (length pre + length a + length b + 2)"
    by (subst searchForward.simps) simp
  have sub: "substring ?t (length pre) (length pre + length a + length b + 2) = LPAREN # a @ b @ [RPAREN]"
    by (simp add: substring_slice)
  from bw fw sub assms(2,3)
  have fcb: "findCodeBlock (document editor) (active (selection editor)) = Some (LPAREN # a @ b @ [RPAREN])"
    by (simp add: findCodeBlock_def Let_def)
  with assms(1) show ?thesis by (simp add: blockOrLine_def)
qed

lemma balancedFrom_snoc_other:
  "c \<noteq> LPAREN \<Longrightarrow> c \<noteq> RPAREN \<Longrightarrow> balancedFrom d (xs @ [c]) = balancedFrom d xs"
  by (induction xs arbitrary: d) (auto split: nat.splits)

text \<open>
  C2 (amended). For an empty selection with the cursor inside nested balanced parentheses,
  in front of a character \<open>c\<close> that is not itself a parenthesis, the fragment is the full
  text, both parentheses included, of the innermost enclosing pair, the one nearest to the
  cursor: every \<open>(\<close> between its \<open>(\<close> and the cursor is closed before the cursor
  (\<open>a\<close> is balanced), and its \<open>)\<close> is where the depth returns to zero.
\<close>

theorem blockOrLine_innermost_pair:
  assumes "isEmpty (selection editor)"
    and "getText (document editor) = pre @ LPAREN # a @ c # b @ RPAREN # post"
    and "offsetAt (document editor) (active (selection editor)) = length pre + 1 + length a"
    and "c \<noteq> LPAREN" and "c \<noteq> RPAREN"
    and "balanced a"
    and "balanced (a @ c # b)"
  shows "findCodeBlock (document editor) (active (selection editor)) = Some (LPAREN # a @ c # b @ [RPAREN]) \<and>
         blockOrLine editor = LPAREN # a @ c # b @ [RPAREN]"
proof -
  from assms(4,5,6) have 1: "balanced (a @ [c])"
    by (simp add: balanced_def balancedFrom_snoc_other)
  from assms(7) have 2: "balanced ((a @ [c]) @ b)" by simp
  from assms(2) have 3: "getText (document editor) = pre @ LPAREN # (a @ [c]) @ b @ RPAREN # post" by simp
  from assms(3) have 4: "offsetAt (document editor) (active (selection editor)) = length pre + length (a @ [c])"
    by simp
  from findCodeBlock_nearest_unmatched[OF assms(1) 3 4 1 2] show ?thesis by simp
qed

theorem blockOrLine_innermost_pair_witness:
  "isEmpty (cursorAt 4) \<and>
   js ''(a (b) c)'' = js ''(a '' @ LPAREN # [] @ 0x62 # [] @ RPAREN # js '' c)'' \<and>
   (0x62 :: jschar) \<noteq> LPAREN \<and> (0x62 :: jschar) \<noteq> RPAREN \<and>
   balanced [] \<and> balanced ([] @ 0x62 # []) \<and>
   blockOrLine \<lparr>document = singleLineDocument (js ''(a (b) c)''), selection = cursorAt 4\<rparr> = js ''(b)''"
proof -
  let ?ed = "\<lparr>document = singleLineDocument (js ''(a (b) c)''), selection = cursorAt 4\<rparr>"
  have e: "isEmpty (selection ?ed)" by (simp add: isEmpty_def cursorAt_def)
  have t: "getText (document ?ed) = js ''(a '' @ LPAREN # [] @ 0x62 # [] @ RPAREN # js '' c)''"
    by (simp add: singleLineDocument_def js_def LPAREN_def RPAREN_def)
  have off: "offsetAt (document ?ed) (active (selection ?ed)) = length (js ''(a '') + 1 + length ([] :: jsstring)"
    by (simp add: singleLineDocument_def cursorAt_def js_def)
  have c1: "(0x62 :: jschar) \<noteq> LPAREN" by (simp add: LPAREN_def)
  have c2: "(0x62 :: jschar) \<noteq> RPAREN" by (simp add: RPAREN_def)
  have b1: "balanced []" by (simp add: balanced_def)
  have b2: "balanced ([] @ 0x62 # [])" by (simp add: balanced_def LPAREN_def RPAREN_def)
  have r: "LPAREN # [] @ 0x62 # [] @ [RPAREN] = js ''(b)''"
    by (simp add: js_def LPAREN_def RPAREN_def)
  from blockOrLine_innermost_pair[OF e t off c1 c2 b1 b2] e t c1 c2 b1 b2 r show ?thesis
    by (simp add: singleLineDocument_def)
qed

text \<open>
  The cursor on \<open>b\<close> in \<open>(a (b) c)\<close> is enclosed by the pair that spans the whole text,
  and the fragment is the inner \<open>(b)\<close>, not the text of the outer pair.
\<close>

theorem blockOrLine_outermost_counterexample:
  "isEmpty (cursorAt 4) \<and>
   enclosingPair (js ''(a (b) c)'') 4 0 9 \<and>
   blockOrLine \<lparr>document = singleLineDocument (js ''(a (b) c)''), selection = cursorAt 4\<rparr> = js ''(b)'' \<and>
   blockOrLine \<lparr>document = singleLineDocument (js ''(a (b) c)''), selection = cursorAt 4\<rparr>
     \<noteq> substring (js ''(a (b) c)'') 0 9"
  by code_simp

text \<open>
  C3 (amended). When no enclosing pair is found, \<open>findCodeBlock\<close> returns the text of the
  cursor's line with the white space at both ends removed; the fragment is that trimmed
  text, and the raw text of the line only when the trimmed text is empty.
\<close>

theorem blockOrLine_no_block:
  assumes "isEmpty (selection editor)"
    and "noBlockFound (getText (document editor)) (offsetAt (document editor) (active (selection editor)))"
  shows "findCodeBlock (document editor) (active (selection editor))
           = Some (trim (lineAt (document editor) (line (active (selection editor))))) \<and>
         blockOrLine editor =
           (if trim (lineAt (document editor) (line (active (selection editor)))) \<noteq> []
            then trim (lineAt (document editor) (line (active (selection editor))))
            else lineAt (document editor) (line (active (selection editor))))"
  using assms
  by (auto simp: blockOrLine_def findCodeBlock_def noBlockFound_def Let_def split: option.splits)

theorem blockOrLine_no_block_witness:
  "isEmpty (cursorAt 3) \<and> noBlockFound (js ''  foo  '') 3 \<and>
   blockOrLine \<lparr>document = singleLineDocument (js ''  foo  ''), selection = cursorAt 3\<rparr> = js ''foo''"
proof -
  let ?ed = "\<lparr>document = singleLineDocument (js ''  foo  ''), selection = cursorAt 3\<rparr>"
  have e: "isEmpty (selection ?ed)" by (simp add: isEmpty_def cursorAt_def)
  have n: "noBlockFound (js ''  foo  '') 3" by code_simp
  then have n': "noBlockFound (getText (document ?ed)) (offsetAt (document ?ed) (active (selection ?ed)))"
    by (simp add: singleLineDocument_def cursorAt_def)
  have t: "trim (js ''  foo  '') = js ''foo''" by code_simp
  have ne: "js ''foo'' \<noteq> []" by (simp add: js_def)
  from blockOrLine_no_block[OF e n'] e n t ne show ?thesis
    by (simp add: singleLineDocument_def cursorAt_def)
qed

text \<open>On the line \<open>  foo  \<close> the fragment is \<open>foo\<close>, not the raw text of the line.\<close>

theorem blockOrLine_raw_line_counterexample:
  "isEmpty (cursorAt 3) \<and> noBlockFound (js ''  foo  '') 3 \<and>
   lineAt (singleLineDocument (js ''  foo  '')) 0 = js ''  foo  '' \<and>
   blockOrLine \<lparr>document = singleLineDocument (js ''  foo  ''), selection = cursorAt 3\<rparr>
     \<noteq> js ''  foo  ''"
  by code_simp

text \<open>
  C7. With a selection that is not empty, the fragment is the selected text as the
  document returns it, and that text is what \<open>executeBlockCommand\<close> passes to
  \<open>executeCode\<close>.
\<close>

theorem executeBlockCommand_selection:
  assumes "\<not> isEmpty (selection editor)"
  shows "blockOrLine editor = getTextIn (document editor) (selection editor) \<and>
         executeBlockCommand env editor st
           = executeCode env (getTextIn (document editor) (selection editor)) st"
  using assms by (simp add: executeBlockCommand_def blockOrLine_def)

theorem executeBlockCommand_selection_witness:
  "\<not> isEmpty \<lparr>selStart = \<lparr>line = 0, character = 1\<rparr>, selEnd = \<lparr>line = 0, character = 6\<rparr>,
               active = \<lparr>line = 0, character = 6\<rparr>\<rparr> \<and>
   blockOrLine \<lparr>document = singleLineDocument (js ''( a  b )''),
               selection = \<lparr>selStart = \<lparr>line = 0, character = 1\<rparr>, selEnd = \<lparr>line = 0, character = 6\<rparr>,
                            active = \<lparr>line = 0, character = 6\<rparr>\<rparr>\<rparr> = js '' a  b'' \<and>
   executeBlockCommand linuxDefaults
     \<lparr>document = singleLineDocument (js ''( a  b )''),
      selection = \<lparr>selStart = \<lparr>line = 0, character = 1\<rparr>, selEnd = \<lparr>line = 0, character = 6\<rparr>,
                   active = \<lparr>line = 0, character = 6\<rparr>\<rparr>\<rparr> initialState
     = executeCode linuxDefaults (js '' a  b'') initialState"
proof -
  let ?sel = "\<lparr>selStart = \<lparr>line = 0, character = 1\<rparr>, selEnd = \<lparr>line = 0, character = 6\<rparr>,
               active = \<lparr>line = 0, character = 6\<rparr>\<rparr>"
  let ?ed = "\<lparr>document = singleLineDocument (js ''( a  b )''), selection = ?sel\<rparr>"
  have n: "\<not> isEmpty (selection ?ed)" by (simp add: isEmpty_def)
  have g: "getTextIn (document ?ed) (selection ?ed) = js '' a  b''" by code_simp
  from executeBlockCommand_selection[OF n, of linuxDefaults initialState] n g show ?thesis by simp
qed

section \<open>Starting and stopping\<close>

lemma sendCode_blank: "trim code = [] \<Longrightarrow>
   postWindowOutput (sendCode code st) = postWindowOutput st \<and> procs (sendCode code st) = procs st \<and>
   spawnCalls (sendCode code st) = spawnCalls st \<and> sclangOutput (sendCode code st) = sclangOutput st"
  by (simp add: sendCode_def showErrorMessage_def split: option.splits)

lemma startSclang_stopped:
  assumes "\<not> live st"
  shows "spawnCalls (snd (startSclang env fb st)) = spawnCalls st @ [(getSclangPath env, [js ''-i'', js ''vscode''])]"
    and "postWindowOutput (snd (startSclang env fb st)) = postWindowOutput st"
    and "procs (snd (startSclang env fb st)) =
          (case spawnThrows env (getSclangPath env) of
             Some e \<Rightarrow> procs st
           | None \<Rightarrow> procs st @ [\<lparr>spawnfile = getSclangPath env, fallbackToExe = fb, killed = False, stdin = Some []\<rparr>])"
    and "fst (startSclang env fb st) \<longleftrightarrow> spawnThrows env (getSclangPath env) = None"
    and "timers (snd (startSclang env fb st)) = timers st"
    and "spawnThrows env (getSclangPath env) = None \<Longrightarrow> sclangProcess (snd (startSclang env fb st)) = Some (length (procs st))"
  using assms
  by (simp_all add: startSclang_def spawnProcess_def logLine_def showErrorMessage_def Let_def
      split: option.splits)

text \<open>
  C8. \<open>stopSclang\<close> without a live handle changes nothing: no signal, no log line, the
  same state.
\<close>

theorem stopSclang_stopped: "\<not> live st \<Longrightarrow> stopSclang st = st"
  by (simp add: stopSclang_def)

theorem stopSclang_stopped_witness:
  "\<not> live initialState \<and> stopSclang initialState = initialState"
proof -
  have n: "\<not> live initialState" by (simp add: live_def theProcess_def initialState_def)
  from stopSclang_stopped[OF n] n show ?thesis by simp
qed

text \<open>
  With a live handle \<open>startSclang\<close> returns \<open>true\<close> and only appends a line to the log:
  no call of \<open>spawn\<close>, no new process object, the same handle. The \<open>exit\<close> handler of
  any process clears the handle.
\<close>

lemma startSclang_running:
  assumes "live st"
  shows "startSclang env fallback st =
           (True, st\<lparr>sclangOutput := sclangOutput st @ js ''[SuperCollider] sclang already running'' @ [LF]\<rparr>) \<and>
         procs (snd (startSclang env fallback st)) = procs st \<and>
         spawnCalls (snd (startSclang env fallback st)) = spawnCalls st \<and>
         sclangProcess (snd (startSclang env fallback st)) = sclangProcess st"
  using assms
  by (simp add: startSclang_def logLine_def appendLine_def live_def theProcess_def)

lemma onExit_clears_handle:
  assumes "pid < length (procs st)"
  shows "sclangProcess (onExit pid code st) = None \<and> \<not> live (onExit pid code st) \<and>
         procs (onExit pid code st) = procs st"
  using assms by (simp add: onExit_def logLine_def live_def theProcess_def)

text \<open>
  C6. That at most one live process exists at any time fails: the \<open>exit\<close> handler
  clears the handle whichever process exited. Start, stop, start leaves the handle on
  process 1, which is live. The
  late \<open>exit\<close> event of process 0 clears that handle, and no event of process 1 has
  arrived. The next start then finds no live handle, returns \<open>true\<close> and spawns
  process 2: three calls of \<open>spawn\<close>, and the processes 1 and 2, neither killed nor
  exited, at the same time.
\<close>

theorem startSclang_after_late_exit:
  "live restartedState \<and>
   sclangProcess restartedState = Some 1 \<and>
   sclangProcess lateExitState = None \<and>
   procs lateExitState = procs restartedState \<and>
   \<not> live lateExitState \<and>
   fst (startSclang linuxDefaults True lateExitState) \<and>
   sclangProcess secondInterpreterState = Some 2 \<and>
   map spawnfile (procs secondInterpreterState) = [js ''sclang'', js ''sclang'', js ''sclang''] \<and>
   \<not> killed (procs secondInterpreterState ! 1) \<and>
   \<not> killed (procs secondInterpreterState ! 2) \<and>
   spawnCalls secondInterpreterState =
     [(js ''sclang'', [js ''-i'', js ''vscode'']), (js ''sclang'', [js ''-i'', js ''vscode'']),
      (js ''sclang'', [js ''-i'', js ''vscode''])]"
  by code_simp

lemma sclang_exe_neq: "js ''sclang.exe'' \<noteq> js ''sclang''"
  by (simp add: js_def)

text \<open>
  C4 (amended). On an \<open>error\<close> event of a process, \<open>spawn\<close> is called once more, with
  \<open>sclang.exe\<close>, exactly when the path of that process is the literal \<open>sclang\<close>, the
  fallback is allowed and the platform is Linux or Windows, whatever the error is. When
  that call of \<open>spawn\<close> returns a process, that process becomes the handle, and an
  \<open>error\<close> event of it calls \<open>spawn\<close> no more, shows the error and clears the handle;
  so does every \<open>error\<close> event for which the condition does not hold. What follows when
  the call of \<open>spawn\<close> in the handler throws is left out.
\<close>

theorem onError_fallback:
  assumes "pid < length (procs st)"
  shows "spawnCalls (snd (onError env pid err st)) =
           spawnCalls st @
           (if fallbackApplies env (procs st ! pid) then [(js ''sclang.exe'', [js ''-i'', js ''vscode''])] else []) \<and>
         (fallbackApplies env (procs st ! pid) \<and> spawnThrows env (js ''sclang.exe'') = None \<longrightarrow>
            sclangProcess (snd (onError env pid err st)) = Some (length (procs st)) \<and>
            procs (snd (onError env pid err st)) =
              procs st @ [\<lparr>spawnfile = js ''sclang.exe'', fallbackToExe = True, killed = False, stdin = Some []\<rparr>] \<and>
            spawnCalls (snd (onError env (length (procs st)) err' (snd (onError env pid err st)))) =
              spawnCalls (snd (onError env pid err st)) \<and>
            sclangProcess (snd (onError env (length (procs st)) err' (snd (onError env pid err st)))) = None \<and>
            errorMessages (snd (onError env (length (procs st)) err' (snd (onError env pid err st)))) =
              errorMessages st @
              [js ''Failed to start sclang ('' @ js ''sclang.exe'' @ js ''): '' @ message err' @
               js ''. Check supercollider.sclangPath setting.'']) \<and>
         (\<not> fallbackApplies env (procs st ! pid) \<longrightarrow>
            sclangProcess (snd (onError env pid err st)) = None \<and>
            procs (snd (onError env pid err st)) = procs st \<and>
            errorMessages (snd (onError env pid err st)) =
              errorMessages st @
              [js ''Failed to start sclang ('' @ spawnfile (procs st ! pid) @ js ''): '' @ message err @
               js ''. Check supercollider.sclangPath setting.''])"
proof -
  let ?st1 = "snd (onError env pid err st)"
  have calls: "spawnCalls ?st1 = spawnCalls st @
      (if fallbackApplies env (procs st ! pid) then [(js ''sclang.exe'', [js ''-i'', js ''vscode''])] else [])"
    using assms
    by (simp add: onError_def fallbackApplies_def spawnProcess_def logLine_def showErrorMessage_def
        Let_def split: option.splits)
  have no: "sclangProcess ?st1 = None \<and> procs ?st1 = procs st \<and>
      errorMessages ?st1 = errorMessages st @
        [js ''Failed to start sclang ('' @ spawnfile (procs st ! pid) @ js ''): '' @ message err @
         js ''. Check supercollider.sclangPath setting.'']"
    if "\<not> fallbackApplies env (procs st ! pid)"
    using assms that
    by (auto simp: onError_def fallbackApplies_def logLine_def showErrorMessage_def Let_def)
  have yes: "sclangProcess ?st1 = Some (length (procs st)) \<and>
      procs ?st1 = procs st @ [\<lparr>spawnfile = js ''sclang.exe'', fallbackToExe = True, killed = False, stdin = Some []\<rparr>] \<and>
      errorMessages ?st1 = errorMessages st"
    if "fallbackApplies env (procs st ! pid)" "spawnThrows env (js ''sclang.exe'') = None"
    using assms that
    by (simp add: onError_def fallbackApplies_def spawnProcess_def logLine_def Let_def)
  have again: "spawnCalls (snd (onError env (length (procs st)) err' ?st1)) = spawnCalls ?st1 \<and>
      sclangProcess (snd (onError env (length (procs st)) err' ?st1)) = None \<and>
      errorMessages (snd (onError env (length (procs st)) err' ?st1)) =
        errorMessages st @
        [js ''Failed to start sclang ('' @ js ''sclang.exe'' @ js ''): '' @ message err' @
         js ''. Check supercollider.sclangPath setting.'']"
    if "fallbackApplies env (procs st ! pid)" "spawnThrows env (js ''sclang.exe'') = None"
  proof -
    from yes[OF that] have p: "procs ?st1 ! length (procs st) =
        \<lparr>spawnfile = js ''sclang.exe'', fallbackToExe = True, killed = False, stdin = Some []\<rparr>"
      and l: "length (procs st) < length (procs ?st1)"
      and e: "errorMessages ?st1 = errorMessages st" by simp_all
    have "\<not> fallbackApplies env (procs ?st1 ! length (procs st))"
      using p sclang_exe_neq by (simp add: fallbackApplies_def)
    with l p e show ?thesis
      by (auto simp: onError_def[of env "length (procs st)" err' ?st1] fallbackApplies_def
          logLine_def showErrorMessage_def Let_def)
  qed
  from calls no yes again show ?thesis by blast
qed

theorem onError_fallback_witness:
  "0 < length (procs runningState) \<and>
   fallbackApplies linuxDefaults (procs runningState ! 0) \<and>
   spawnThrows linuxDefaults (js ''sclang.exe'') = None \<and>
   \<not> fallbackApplies darwinDefaults (procs runningState ! 0) \<and>
   spawnCalls (snd (onError linuxDefaults 0 notFound runningState)) =
     [(js ''sclang'', [js ''-i'', js ''vscode'']), (js ''sclang.exe'', [js ''-i'', js ''vscode''])] \<and>
   sclangProcess (snd (onError linuxDefaults 0 notFound runningState)) = Some 1 \<and>
   spawnCalls (snd (onError linuxDefaults 1 notFound (snd (onError linuxDefaults 0 notFound runningState)))) =
     [(js ''sclang'', [js ''-i'', js ''vscode'']), (js ''sclang.exe'', [js ''-i'', js ''vscode''])] \<and>
   sclangProcess (snd (onError linuxDefaults 1 notFound (snd (onError linuxDefaults 0 notFound runningState)))) = None \<and>
   spawnCalls (snd (onError darwinDefaults 0 notFound runningState)) = [(js ''sclang'', [js ''-i'', js ''vscode''])] \<and>
   sclangProcess (snd (onError darwinDefaults 0 notFound runningState)) = None"
proof -
  have l: "0 < length (procs runningState)" "length (procs runningState) = 1" by code_simp+
  have f: "fallbackApplies linuxDefaults (procs runningState ! 0)" by code_simp
  have t: "spawnThrows linuxDefaults (js ''sclang.exe'') = None" by (simp add: linuxDefaults_def)
  have d: "\<not> fallbackApplies darwinDefaults (procs runningState ! 0)" by code_simp
  have c: "spawnCalls runningState = [(js ''sclang'', [js ''-i'', js ''vscode''])]" by code_simp
  from onError_fallback[OF l(1), of linuxDefaults notFound notFound]
       onError_fallback[OF l(1), of darwinDefaults notFound notFound] l f t d c
  show ?thesis by simp
qed

text \<open>
  An \<open>error\<close> event whose error is a denied permission, not a missing executable,
  re-spawns with \<open>sclang.exe\<close> all the same.
\<close>

theorem onError_fallback_any_error_counterexample:
  "errno permissionDenied \<noteq> ENOENT \<and>
   spawnCalls runningState = [(js ''sclang'', [js ''-i'', js ''vscode''])] \<and>
   spawnCalls (snd (onError linuxDefaults 0 permissionDenied runningState)) =
     [(js ''sclang'', [js ''-i'', js ''vscode'']), (js ''sclang.exe'', [js ''-i'', js ''vscode''])]"
  by code_simp

section \<open>Sending code\<close>

text \<open>
  C1 (amended). A fragment whose trimmed text is empty is never echoed to the post window
  and never written to a process, neither by \<open>sendCode\<close> (at once, or when the delayed
  send runs) nor by \<open>executeCode\<close>. With a live handle \<open>executeCode\<close> calls
  \<open>spawn\<close> no more; without one it calls \<open>spawn\<close> as for any other fragment.
\<close>

theorem executeCode_blank:
  assumes "trim code = []"
  shows "postWindowOutput (sendCode code st) = postWindowOutput st \<and>
         procs (sendCode code st) = procs st \<and>
         spawnCalls (sendCode code st) = spawnCalls st \<and>
         postWindowOutput (executeCode env code st) = postWindowOutput st \<and>
         (procs (executeCode env code st) = procs st \<or>
          procs (executeCode env code st) =
            procs st @ [\<lparr>spawnfile = getSclangPath env, fallbackToExe = True, killed = False, stdin = Some []\<rparr>]) \<and>
         (live st \<longrightarrow> procs (executeCode env code st) = procs st \<and>
                      spawnCalls (executeCode env code st) = spawnCalls st) \<and>
         (\<not> live st \<longrightarrow> spawnCalls (executeCode env code st) =
                      spawnCalls st @ [(getSclangPath env, [js ''-i'', js ''vscode''])])"
proof (cases "live st")
  case True
  with assms sendCode_blank[OF assms, of st] show ?thesis by (simp add: executeCode_def)
next
  case False
  note s = startSclang_stopped[OF False, of env True]
  obtain r st1 where r: "startSclang env True st = (r, st1)" by (cases "startSclang env True st")
  with s have "spawnCalls st1 = spawnCalls st @ [(getSclangPath env, [js ''-i'', js ''vscode''])]"
    "postWindowOutput st1 = postWindowOutput st"
    "procs st1 = procs st \<or> procs st1 = procs st @ [\<lparr>spawnfile = getSclangPath env, fallbackToExe = True, killed = False, stdin = Some []\<rparr>]"
    by (auto split: option.splits)
  with False r sendCode_blank[OF assms, of st] show ?thesis
    by (cases r) (simp_all add: executeCode_def)
qed

theorem executeCode_blank_witness:
  "trim (js ''   '') = [] \<and> live runningState \<and> \<not> live initialState \<and>
   postWindowOutput (executeCode linuxDefaults (js ''   '') runningState) = postWindowOutput runningState \<and>
   procs (executeCode linuxDefaults (js ''   '') runningState) = procs runningState \<and>
   spawnCalls (executeCode linuxDefaults (js ''   '') runningState) = spawnCalls runningState \<and>
   spawnCalls (executeCode linuxDefaults (js ''   '') initialState) = [(js ''sclang'', [js ''-i'', js ''vscode''])]"
proof -
  have t: "trim (js ''   '') = []" by code_simp
  have l: "live runningState" by code_simp
  have n: "\<not> live initialState" by code_simp
  have c: "spawnCalls initialState = []" by (simp add: initialState_def)
  have p: "getSclangPath linuxDefaults = js ''sclang''" by (simp add: getSclangPath_def linuxDefaults_def)
  from executeCode_blank[OF t, of runningState linuxDefaults]
       executeCode_blank[OF t, of initialState linuxDefaults] t l n c p
  show ?thesis by simp
qed

text \<open>
  From the initial state, \<open>executeCode\<close> of three spaces calls \<open>spawn\<close> and creates a
  process.
\<close>

theorem executeCode_blank_spawns_counterexample:
  "trim (js ''   '') = [] \<and> \<not> live initialState \<and> procs initialState = [] \<and>
   procs (executeCode linuxDefaults (js ''   '') initialState) =
     [\<lparr>spawnfile = js ''sclang'', fallbackToExe = True, killed = False, stdin = Some []\<rparr>] \<and>
   spawnCalls (executeCode linuxDefaults (js ''   '') initialState) = [(js ''sclang'', [js ''-i'', js ''vscode''])]"
  by code_simp

text \<open>
  C5. With a handle whose process has an input stream, \<open>sendCode\<close> of a fragment that is
  not empty after trimming writes one chunk to that stream: the trimmed fragment followed
  by the one code unit ESC, and nothing after it. With a live handle \<open>bootServer\<close> is
  \<open>sendCode\<close> of \<open>s.boot;\<close>, and the chunk is \<open>s.boot;\<close> followed by ESC.
\<close>

theorem sendCode_payload:
  assumes "sclangProcess st = Some pid"
    and "pid < length (procs st)"
    and "stdin (procs st ! pid) = Some ws"
  shows "(trim code \<noteq> [] \<longrightarrow>
            procs (sendCode code st) =
              (procs st)[pid := (procs st ! pid)\<lparr>stdin := Some (ws @ [trim code @ [ESC]])\<rparr>]) \<and>
         (\<not> killed (procs st ! pid) \<longrightarrow>
            bootServer env st = sendCode (js ''s.boot;'') st \<and>
            procs (bootServer env st) =
              (procs st)[pid := (procs st ! pid)\<lparr>stdin := Some (ws @ [js ''s.boot;'' @ [ESC]])\<rparr>])"
proof -
  have tp: "theProcess st = Some (procs st ! pid)" using assms by (simp add: theProcess_def)
  have send: "procs (sendCode c st) =
      (procs st)[pid := (procs st ! pid)\<lparr>stdin := Some (ws @ [trim c @ [ESC]])\<rparr>]"
    if "trim c \<noteq> []" for c
    using assms tp that by (simp add: sendCode_def stdinWrite_def Let_def)
  have boot: "trim (js ''s.boot;'') = js ''s.boot;''" by code_simp
  have ne: "js ''s.boot;'' \<noteq> []" by (simp add: js_def)
  have "bootServer env st = sendCode (js ''s.boot;'') st" if "\<not> killed (procs st ! pid)"
    using that tp by (simp add: bootServer_def executeCode_def live_def)
  with send[of code] send[of "js ''s.boot;''"] boot ne show ?thesis by simp
qed

theorem sendCode_payload_witness:
  "sclangProcess runningState = Some 0 \<and> 0 < length (procs runningState) \<and>
   stdin (procs runningState ! 0) = Some [] \<and> trim (js '' 1.postln; '') \<noteq> [] \<and>
   \<not> killed (procs runningState ! 0) \<and>
   stdin (procs (sendCode (js '' 1.postln; '') runningState) ! 0) = Some [js ''1.postln;'' @ [ESC]] \<and>
   stdin (procs (bootServer linuxDefaults runningState) ! 0) = Some [js ''s.boot;'' @ [ESC]]"
proof -
  have h: "sclangProcess runningState = Some 0" by code_simp
  have l: "0 < length (procs runningState)" by code_simp
  have s: "stdin (procs runningState ! 0) = Some []" by code_simp
  have t: "trim (js '' 1.postln; '') = js ''1.postln;''" by code_simp
  have ne: "js ''1.postln;'' \<noteq> []" by (simp add: js_def)
  have k: "\<not> killed (procs runningState ! 0)" by code_simp
  note p = sendCode_payload[OF h l s, of "js '' 1.postln; ''" linuxDefaults]
  from p t ne have a: "procs (sendCode (js '' 1.postln; '') runningState) =
      (procs runningState)[0 := (procs runningState ! 0)\<lparr>stdin := Some ([] @ [js ''1.postln;'' @ [ESC]])\<rparr>]"
    by simp
  from p k have b: "procs (bootServer linuxDefaults runningState) =
      (procs runningState)[0 := (procs runningState ! 0)\<lparr>stdin := Some ([] @ [js ''s.boot;'' @ [ESC]])\<rparr>]"
    by blast
  from l have "stdin (procs (sendCode (js '' 1.postln; '') runningState) ! 0) = Some [js ''1.postln;'' @ [ESC]]"
    unfolding a by simp
  moreover from l have "stdin (procs (bootServer linuxDefaults runningState) ! 0) = Some [js ''s.boot;'' @ [ESC]]"
    unfolding b by simp
  ultimately show ?thesis using h l s t ne k by simp
qed



end
